theory Spec2Isabelle
  imports Main "HOL-Library.AList"
begin

section \<open>The diary schedule renderer (Schedule.jsx)\<close>

subsection \<open>JavaScript values\<close>

text \<open>
  The input of the renderer is data decoded from JSON, on which the id pre-pass has set an
  \<open>id\<close> property. Objects are association lists of own properties. An array carries,
  besides its elements, the value of its \<open>id\<close> property (\<open>JUndefined\<close> when it has
  none): the code reads \<open>row.id\<close> of arrays as well as of objects. Numbers are only
  passed through by this file, never computed with.
\<close>

datatype jsval =
    JUndefined
  | JNull
  | JBool bool
  | JNum int
  | JStr string
  | JObj "(string \<times> jsval) list"
  | JArr jsval "jsval list"

datatype error = TypeError

text \<open>
  \<open>v.k\<close> for the property names this file reads (\<open>tag\<close>, \<open>value\<close>, \<open>type\<close>,
  \<open>id\<close>), none of which is defined on a built-in prototype: reading a property of
  \<open>null\<close> or \<open>undefined\<close> throws, a missing property is \<open>undefined\<close>.
\<close>

fun getprop :: "jsval \<Rightarrow> string \<Rightarrow> error + jsval" where
  "getprop JUndefined k = Inl TypeError"
| "getprop JNull k = Inl TypeError"
| "getprop (JObj kvs) k = Inr (case map_of kvs k of None \<Rightarrow> JUndefined | Some v \<Rightarrow> v)"
| "getprop (JArr i xs) k = Inr (if k = ''id'' then i else JUndefined)"
| "getprop v k = Inr JUndefined"

fun Array_isArray :: "jsval \<Rightarrow> bool" where
  "Array_isArray (JArr i xs) = True"
| "Array_isArray v = False"

text \<open>
  \<open>const [head, ...rest] = json\<close>: the value must be iterable. An array gives its first
  element (\<open>undefined\<close> when it is empty) and the others; a string iterates over its
  characters; anything else throws.
\<close>

fun destructure :: "jsval \<Rightarrow> error + jsval \<times> jsval list" where
  "destructure (JArr i []) = Inr (JUndefined, [])"
| "destructure (JArr i (x # xs)) = Inr (x, xs)"
| "destructure (JStr []) = Inr (JUndefined, [])"
| "destructure (JStr (c # cs)) = Inr (JStr [c], map (\<lambda>d. JStr [d]) cs)"
| "destructure v = Inl TypeError"

subsection \<open>The presentation tree\<close>

text \<open>
  The elements the components return, with the components of this file expanded and the
  imported ones (\<open>Loading\<close>, \<open>ColumnList\<close>, \<open>ColumnCard\<close>, \<open>Break\<close>,
  \<open>ShrimpField\<close>, \<open>SummaryField\<close>, \<open>JupyterActivity\<close>, \<open>JupyterAllActivities\<close>,
  \<open>LinkButton\<close>, \<open>Text\<close>, \<open>Grid\<close>, \<open>Typography\<close>) kept as constructors holding
  their props. \<open>Keyed k e\<close> is an element created with \<open>key={k}\<close>. \<open>Typography n v\<close>
  has variant \<open>'h' + n\<close> and child \<open>v\<close>; \<open>Grid\<close> is \<open>Grid item xs={4}\<close> with its
  optional class. \<open>Stringify v\<close> stands for the string \<open>JSON.stringify(v)\<close>.
\<close>

datatype className = classes_grid

datatype text_child = Str string | Val jsval | Stringify jsval

datatype elem =
    Loading
  | ColumnList "elem list"
  | ColumnCard jsval "elem list"
  | Break
  | ShrimpField jsval
  | SummaryField jsval
  | JupyterActivity "jsval list"
  | JupyterAllActivities jsval
  | LinkButton string elem
  | Text "text_child list"
  | Typography nat jsval
  | Grid "className option" elem
  | Fragment "elem list"
  | Keyed jsval elem

subsection \<open>Field\<close>

fun Field :: "jsval \<Rightarrow> error + elem" where
  "Field json =
     (case getprop json ''type'' of Inl e \<Rightarrow> Inl e | Inr ty \<Rightarrow>
        if ty = JStr ''value'' then Inr (SummaryField json)
        else if ty = JStr ''link'' then
          (case getprop json ''tag'' of Inl e \<Rightarrow> Inl e | Inr tg \<Rightarrow>
             if tg = JStr ''health'' then
               (case getprop json ''value'' of Inl e \<Rightarrow> Inl e | Inr v \<Rightarrow>
                  Inr (LinkButton ''api/jupyter/health'' (Text [Val v])))
             else if tg = JStr ''all-activities'' then Inr (JupyterAllActivities json)
             else Inr (Grid None (Text [Str ''Unsupported link: '', Stringify json])))
        else Inr (Grid None (Text [Str ''Unsupported type: '', Stringify json])))"

subsection \<open>childrenFromRest and Header\<close>

text \<open>
  What one pass of the \<open>forEach\<close> body pushes for \<open>row\<close> is computed first, then the
  remaining rows; \<open>key={row.id}\<close> is read where the element is created. \<open>Header\<close>
  returns the fragment of the heading and its children; a single
  \<open>JupyterActivity\<close> child is the one-element list.
\<close>

text \<open>
  \<open>weight\<close> is the measure of the termination proof: a sequence weighs more than its
  elements together, and a string more than its characters as one-character strings.
\<close>

fun weight :: "jsval \<Rightarrow> nat" where
  "weight (JArr i xs) = Suc (sum_list (map weight xs))"
| "weight (JStr s) = max 1 (length s)"
| "weight v = 1"

function (sequential)
  childrenFromRest :: "jsval \<Rightarrow> jsval list \<Rightarrow> nat \<Rightarrow> 'h \<Rightarrow> error + elem list" and
  Header :: "jsval \<Rightarrow> nat \<Rightarrow> 'h \<Rightarrow> error + elem"
where
  "childrenFromRest head [] level history = Inr []"
| "childrenFromRest head (row # rows) level history =
     (case
        (if Array_isArray row then
           (if head = JStr ''shrimp'' then
              (case getprop row ''id'' of Inl e \<Rightarrow> Inl e | Inr k \<Rightarrow>
                 Inr [Keyed k (ShrimpField row)])
            else
              (case getprop row ''id'' of Inl e \<Rightarrow> Inl e | Inr k \<Rightarrow>
                 (case Header row level history of Inl e \<Rightarrow> Inl e | Inr section \<Rightarrow>
                    Inr [Break, Keyed k section])))
         else
           (case getprop row ''id'' of Inl e \<Rightarrow> Inl e | Inr k \<Rightarrow>
              (case Field row of Inl e \<Rightarrow> Inl e | Inr field \<Rightarrow> Inr [Keyed k field])))
      of Inl e \<Rightarrow> Inl e
       | Inr pushed \<Rightarrow>
           (case childrenFromRest head rows level history of Inl e \<Rightarrow> Inl e
            | Inr children \<Rightarrow> Inr (pushed @ children)))"
| "Header json level history =
     (case destructure json of Inl e \<Rightarrow> Inl e | Inr (head, rest) \<Rightarrow>
        (case getprop head ''tag'' of Inl e \<Rightarrow> Inl e | Inr tg \<Rightarrow>
           (case (if tg = JStr ''jupyter-activity'' then Inr [JupyterActivity rest]
                  else childrenFromRest tg rest (level + 1) history)
            of Inl e \<Rightarrow> Inl e
             | Inr children \<Rightarrow>
                 (case getprop head ''value'' of Inl e \<Rightarrow> Inl e | Inr v \<Rightarrow>
                    Inr (Fragment (Grid (Some classes_grid) (Typography level v) # children))))))"
  by pat_completeness auto
termination
proof (relation "measure (\<lambda>x. case x of
          Inl (head, rest, level, history) \<Rightarrow> 2 * sum_list (map weight rest) + 1
        | Inr (json, level, history) \<Rightarrow> 2 * weight json)")
  show "wf (measure (\<lambda>x. case x of
          Inl (head :: jsval, rest, level :: nat, history :: 'h) \<Rightarrow> 2 * sum_list (map weight rest) + 1
        | Inr (json, level :: nat, history :: 'h) \<Rightarrow> 2 * weight json))"
    by simp
next
  fix head :: jsval and row rows and level :: nat and history :: 'h and x
  show "(Inr (row, level, history), Inl (head, row # rows, level, history))
      \<in> measure (\<lambda>x. case x of
          Inl (head, rest, level, history) \<Rightarrow> 2 * sum_list (map weight rest) + 1
        | Inr (json, level, history) \<Rightarrow> 2 * weight json)"
    by simp
next
  fix head :: jsval and row rows and level :: nat and history :: 'h
  have "0 < weight row" by (cases row) simp_all
  then show "(Inl (head, rows, level, history), Inl (head, row # rows, level, history))
      \<in> measure (\<lambda>x. case x of
          Inl (head, rest, level, history) \<Rightarrow> 2 * sum_list (map weight rest) + 1
        | Inr (json, level, history) \<Rightarrow> 2 * weight json)"
    by simp
next
  fix json :: jsval and level :: nat and history :: 'h and x2 head rest and tg :: jsval
  assume d: "destructure json = Inr x2" "(head, rest) = x2"
  have chars: "sum_list (map weight (map (\<lambda>d. JStr [d]) cs)) = length cs" for cs
    by (induction cs) simp_all
  have "sum_list (map weight rest) < weight json"
    using d by (cases json rule: destructure.cases) (auto simp: chars simp del: map_map)
  then show "(Inl (tg, rest, level + 1, history), Inr (json, level, history))
      \<in> measure (\<lambda>x. case x of
          Inl (head, rest, level, history) \<Rightarrow> 2 * sum_list (map weight rest) + 1
        | Inr (json, level, history) \<Rightarrow> 2 * weight json)"
    by simp
qed

subsection \<open>TopLevelPaper and Schedule\<close>

fun TopLevelPaper :: "jsval \<Rightarrow> 'h \<Rightarrow> error + elem" where
  "TopLevelPaper json history =
     (case destructure json of Inl e \<Rightarrow> Inl e | Inr (head, rest) \<Rightarrow>
        (case getprop head ''tag'' of Inl e \<Rightarrow> Inl e | Inr tg \<Rightarrow>
           (case childrenFromRest tg rest 3 history of Inl e \<Rightarrow> Inl e | Inr children \<Rightarrow>
              (case getprop head ''value'' of Inl e \<Rightarrow> Inl e | Inr v \<Rightarrow>
                 Inr (ColumnCard v children)))))"

text \<open>
  \<open>xs.map(f)\<close> with a callback that may throw: the first exception ends the call.
\<close>

fun Array_map :: "('a \<Rightarrow> error + 'b) \<Rightarrow> 'a list \<Rightarrow> error + 'b list" where
  "Array_map f [] = Inr []"
| "Array_map f (x # xs) =
     (case f x of Inl e \<Rightarrow> Inl e | Inr y \<Rightarrow>
        (case Array_map f xs of Inl e \<Rightarrow> Inl e | Inr ys \<Rightarrow> Inr (y # ys)))"

subsection \<open>The components and the document they are handed\<close>

text \<open>
  A component is handed nodes of the document by reference and could write to them. The
  functions of this section are the components once more, each returning next to its
  result the nodes it was handed as the call leaves them; a document decoded from JSON is
  a tree, so a call reaches no node but those below its arguments. Every \<open>return\<close> and
  every exception leaves with the nodes as they are at that point. \<open>restructure\<close> is
  the sequence \<open>json\<close> with the elements after the first as a call left them; the
  characters of a string are values, not nodes.
\<close>

fun restructure :: "jsval \<Rightarrow> jsval list \<Rightarrow> jsval" where
  "restructure (JArr i (x # xs)) rest = JArr i (x # rest)"
| "restructure v rest = v"

fun Field_st :: "jsval \<Rightarrow> (error + elem) \<times> jsval" where
  "Field_st json =
     (case getprop json ''type'' of Inl e \<Rightarrow> (Inl e, json) | Inr ty \<Rightarrow>
        if ty = JStr ''value'' then (Inr (SummaryField json), json)
        else if ty = JStr ''link'' then
          (case getprop json ''tag'' of Inl e \<Rightarrow> (Inl e, json) | Inr tg \<Rightarrow>
             if tg = JStr ''health'' then
               (case getprop json ''value'' of Inl e \<Rightarrow> (Inl e, json) | Inr v \<Rightarrow>
                  (Inr (LinkButton ''api/jupyter/health'' (Text [Val v])), json))
             else if tg = JStr ''all-activities'' then (Inr (JupyterAllActivities json), json)
             else (Inr (Grid None (Text [Str ''Unsupported link: '', Stringify json])), json))
        else (Inr (Grid None (Text [Str ''Unsupported type: '', Stringify json])), json))"

function (sequential)
  childrenFromRest_st ::
    "jsval \<Rightarrow> jsval list \<Rightarrow> nat \<Rightarrow> 'h \<Rightarrow> (error + elem list) \<times> jsval list" and
  Header_st :: "jsval \<Rightarrow> nat \<Rightarrow> 'h \<Rightarrow> (error + elem) \<times> jsval"
where
  "childrenFromRest_st head [] level history = (Inr [], [])"
| "childrenFromRest_st head (row # rows) level history =
     (case
        (if Array_isArray row then
           (if head = JStr ''shrimp'' then
              (case getprop row ''id'' of Inl e \<Rightarrow> (Inl e, row) | Inr k \<Rightarrow>
                 (Inr [Keyed k (ShrimpField row)], row))
            else
              (case getprop row ''id'' of Inl e \<Rightarrow> (Inl e, row) | Inr k \<Rightarrow>
                 (case Header_st row level history of
                    (Inl e, row') \<Rightarrow> (Inl e, row')
                  | (Inr section, row') \<Rightarrow> (Inr [Break, Keyed k section], row'))))
         else
           (case getprop row ''id'' of Inl e \<Rightarrow> (Inl e, row) | Inr k \<Rightarrow>
              (case Field_st row of
                 (Inl e, row') \<Rightarrow> (Inl e, row')
               | (Inr field, row') \<Rightarrow> (Inr [Keyed k field], row'))))
      of (Inl e, row') \<Rightarrow> (Inl e, row' # rows)
       | (Inr pushed, row') \<Rightarrow>
           (case childrenFromRest_st head rows level history of
              (Inl e, rows') \<Rightarrow> (Inl e, row' # rows')
            | (Inr children, rows') \<Rightarrow> (Inr (pushed @ children), row' # rows')))"
| "Header_st json level history =
     (case destructure json of Inl e \<Rightarrow> (Inl e, json) | Inr (head, rest) \<Rightarrow>
        (case getprop head ''tag'' of Inl e \<Rightarrow> (Inl e, json) | Inr tg \<Rightarrow>
           (case (if tg = JStr ''jupyter-activity'' then (Inr [JupyterActivity rest], rest)
                  else childrenFromRest_st tg rest (level + 1) history)
            of (Inl e, rest') \<Rightarrow> (Inl e, restructure json rest')
             | (Inr children, rest') \<Rightarrow>
                 (case getprop head ''value'' of Inl e \<Rightarrow> (Inl e, restructure json rest')
                  | Inr v \<Rightarrow>
                      (Inr (Fragment (Grid (Some classes_grid) (Typography level v) # children)),
                       restructure json rest')))))"
  by pat_completeness auto
termination
  apply (relation "measure (\<lambda>x. case x of
          Inl (head, rest, level, history) \<Rightarrow> 2 * sum_list (map weight rest) + 1
        | Inr (json, level, history) \<Rightarrow> 2 * weight json)")
    apply simp_all
  subgoal for head row
    by (cases row) simp_all
  subgoal premises d for json b head rest tg
  proof -
    have chars: "sum_list (map weight (map (\<lambda>c. JStr [c]) cs)) = length cs" for cs
      by (induction cs) simp_all
    have "sum_list (map weight rest) < weight json"
      using d(1,2) by (cases json rule: destructure.cases) (auto simp: chars simp del: map_map)
    then show ?thesis by simp
  qed
  done

fun TopLevelPaper_st :: "jsval \<Rightarrow> 'h \<Rightarrow> (error + elem) \<times> jsval" where
  "TopLevelPaper_st json history =
     (case destructure json of Inl e \<Rightarrow> (Inl e, json) | Inr (head, rest) \<Rightarrow>
        (case getprop head ''tag'' of Inl e \<Rightarrow> (Inl e, json) | Inr tg \<Rightarrow>
           (case childrenFromRest_st tg rest 3 history of
              (Inl e, rest') \<Rightarrow> (Inl e, restructure json rest')
            | (Inr children, rest') \<Rightarrow>
                (case getprop head ''value'' of Inl e \<Rightarrow> (Inl e, restructure json rest')
                 | Inr v \<Rightarrow> (Inr (ColumnCard v children), restructure json rest')))))"

text \<open>
  \<open>xs.map(f)\<close> where \<open>f\<close> is handed the elements by reference: the results, and the
  elements as the calls leave them, those after an exception untouched.
\<close>

fun Array_map_st ::
  "(jsval \<Rightarrow> (error + 'b) \<times> jsval) \<Rightarrow> jsval list \<Rightarrow> (error + 'b list) \<times> jsval list" where
  "Array_map_st f [] = (Inr [], [])"
| "Array_map_st f (x # xs) =
     (case f x of
        (Inl e, x') \<Rightarrow> (Inl e, x' # xs)
      | (Inr y, x') \<Rightarrow>
          (case Array_map_st f xs of
             (Inl e, xs') \<Rightarrow> (Inl e, x' # xs')
           | (Inr ys, xs') \<Rightarrow> (Inr (y # ys), x' # xs')))"

subsection \<open>Schedule\<close>

text \<open>
  \<open>Schedule\<close> returns what it renders together with the document as the call leaves it.
  \<open>setIds(json)\<close> writes to the document in place; \<open>setIds\<close> is imported from
  \<open>../../functions\<close> and is a parameter here. \<open>json.slice(1)\<close> is a new array of the
  same elements, so the document after the walk is its element 0 followed by the other
  elements as \<open>TopLevelPaper\<close> leaves them. \<open>json.slice(1).map(...)\<close> throws unless
  \<open>json\<close> is an array.
\<close>

definition Schedule :: "(jsval \<Rightarrow> jsval) \<Rightarrow> jsval \<Rightarrow> 'h \<Rightarrow> (error + elem) \<times> jsval" where
  "Schedule setIds json history =
     (if json = JNull then (Inr Loading, json)
      else
        (let json' = setIds json in
           (case json' of
              JArr i xs \<Rightarrow>
                (case Array_map_st
                        (\<lambda>row. case getprop row ''id'' of Inl e \<Rightarrow> (Inl e, row) | Inr k \<Rightarrow>
                           (case TopLevelPaper_st row history of
                              (Inl e, row') \<Rightarrow> (Inl e, row')
                            | (Inr paper, row') \<Rightarrow> (Inr (Keyed k paper), row')))
                        (drop 1 xs)
                 of (Inl e, rows') \<Rightarrow> (Inl e, JArr i (take 1 xs @ rows'))
                  | (Inr papers, rows') \<Rightarrow> (Inr (ColumnList papers), JArr i (take 1 xs @ rows')))
            | _ \<Rightarrow> (Inl TypeError, json'))))"

subsection \<open>The id pre-pass\<close>

text \<open>
  Modelled from the spec: the id-assignment pre-pass \<open>assignIds\<close> (the \<open>setIds\<close> of
  \<open>../../functions\<close>, which is not among the sources). It "mutates every node in place
  to add a stable unique identifier", and running it again on an identified document
  changes no identifier. The identifier of a node is taken to be its position, the list of
  the indices that lead to it from the document; the code reads the \<open>id\<close> of sequences
  as well as of records, so both are given one.
\<close>

fun assignId :: "nat list \<Rightarrow> jsval \<Rightarrow> jsval" and
  assignIdsFrom :: "nat list \<Rightarrow> nat \<Rightarrow> jsval list \<Rightarrow> jsval list"
where
  "assignId p (JObj kvs) =
     JObj (AList.update ''id'' (JArr JUndefined (map (\<lambda>k. JNum (int k)) p)) kvs)"
| "assignId p (JArr i xs) =
     JArr (JArr JUndefined (map (\<lambda>k. JNum (int k)) p)) (assignIdsFrom p 0 xs)"
| "assignId p v = v"
| "assignIdsFrom p n [] = []"
| "assignIdsFrom p n (x # xs) = assignId (p @ [n]) x # assignIdsFrom p (Suc n) xs"

fun assignIds :: "jsval \<Rightarrow> jsval" where
  "assignIds (JArr i xs) = JArr i (assignIdsFrom [] 0 xs)"
| "assignIds v = v"

text \<open>
  A document without the identifiers of its nodes: what is left is everything the pre-pass
  does not write.
\<close>

fun eraseIds :: "jsval \<Rightarrow> jsval" where
  "eraseIds (JObj kvs) = JObj (AList.delete ''id'' kvs)"
| "eraseIds (JArr i xs) = JArr JUndefined (map eraseIds xs)"
| "eraseIds v = v"

subsection \<open>Headings of a presentation tree, sections of a document\<close>

text \<open>
  The headings of a presentation tree in order, each with the number of section fragments
  around it, its level and its label: the fragment \<open>Header\<close> returns is one nesting
  level, so a section directly in a card has its heading at distance 1, a section inside
  that one at distance 2.
\<close>

fun headings :: "nat \<Rightarrow> elem \<Rightarrow> (nat \<times> nat \<times> jsval) list" where
  "headings d (Typography n v) = [(d, n, v)]"
| "headings d (Grid c e) = headings d e"
| "headings d (Keyed k e) = headings d e"
| "headings d (LinkButton h e) = headings d e"
| "headings d (Fragment es) = concat (map (headings (Suc d)) es)"
| "headings d (ColumnCard v es) = concat (map (headings d) es)"
| "headings d (ColumnList es) = concat (map (headings d) es)"
| "headings d e = []"

text \<open>
  The sections of a document that are rendered with a heading, in document order, each
  with its nesting distance below its top-level section and the label of its head node:
  the subtrees among the elements after the head of a top-level section (distance 1) and,
  one level further down each time, of such a section; not those under a parent tagged
  \<open>shrimp\<close> and not those inside a \<open>jupyter-activity\<close> section.
\<close>

definition propval :: "jsval \<Rightarrow> string \<Rightarrow> jsval" where
  "propval v k = (case getprop v k of Inl e \<Rightarrow> JUndefined | Inr x \<Rightarrow> x)"

fun rest_sections :: "jsval \<Rightarrow> nat \<Rightarrow> jsval list \<Rightarrow> (nat \<times> jsval) list" and
  subtree_sections :: "nat \<Rightarrow> jsval \<Rightarrow> (nat \<times> jsval) list"
where
  "rest_sections parentTag d [] = []"
| "rest_sections parentTag d (e # es) =
     (if parentTag = JStr ''shrimp'' then [] else subtree_sections d e) @
     rest_sections parentTag d es"
| "subtree_sections d (JArr i (head # rest)) =
     (d, propval head ''value'') #
     (if propval head ''tag'' = JStr ''jupyter-activity'' then []
      else rest_sections (propval head ''tag'') (Suc d) rest)"
| "subtree_sections d v = []"

fun top_sections :: "jsval \<Rightarrow> (nat \<times> jsval) list" where
  "top_sections (JArr i (head # rest)) = rest_sections (propval head ''tag'') 1 rest"
| "top_sections v = []"

definition document_sections :: "jsval \<Rightarrow> (nat \<times> jsval) list" where
  "document_sections document =
     (case document of JArr i xs \<Rightarrow> concat (map top_sections (drop 1 xs)) | _ \<Rightarrow> [])"

subsection \<open>The dispatcher, element by element\<close>

text \<open>
  What the dispatcher emits for one element \<open>e\<close> of \<open>rest\<close>, following the three
  rules of the specification's Subtree Dispatcher; \<open>sectionDepth\<close> is the depth at which
  the Section Renderer is called for a generic subtree.
\<close>

definition dispatchChild :: "jsval \<Rightarrow> nat \<Rightarrow> 'h \<Rightarrow> jsval \<Rightarrow> error + elem list" where
  "dispatchChild parentTag sectionDepth history e =
     (case getprop e ''id'' of Inl err \<Rightarrow> Inl err | Inr k \<Rightarrow>
        if parentTag = JStr ''shrimp'' \<and> Array_isArray e then Inr [Keyed k (ShrimpField e)]
        else if Array_isArray e then
          (case Header e sectionDepth history of Inl err \<Rightarrow> Inl err
           | Inr section \<Rightarrow> Inr [Break, Keyed k section])
        else
          (case Field e of Inl err \<Rightarrow> Inl err | Inr field \<Rightarrow> Inr [Keyed k field]))"

subsection \<open>Well-formed input\<close>

text \<open>
  The data model of the specification: an element of a \<open>Rest\<close> is a field node, a
  record, or a subtree, a sequence that begins with a head node, a record, and goes on with
  such elements.
\<close>

fun well_formed :: "jsval \<Rightarrow> bool" where
  "well_formed (JObj kvs) = True"
| "well_formed (JArr i (JObj kvs # rest)) = list_all well_formed rest"
| "well_formed v = False"

subsection \<open>Sample documents\<close>

text \<open>
  A document of a date label and one top-level section \<open>Top\<close> that holds a section
  \<open>One\<close>, which holds a section \<open>Two\<close>; and the rows used below.
\<close>

definition head_node :: "string \<Rightarrow> string \<Rightarrow> jsval" where
  "head_node t v = JObj [(''tag'', JStr t), (''value'', JStr v)]"

definition section_Two :: jsval where
  "section_Two = JArr JUndefined [head_node ''two'' ''Two'']"

definition section_One :: jsval where
  "section_One = JArr JUndefined [head_node ''one'' ''One'', section_Two]"

definition nested_document :: jsval where
  "nested_document =
     JArr JUndefined
       [JArr JUndefined [head_node ''date'' ''2020-01-01''],
        JArr JUndefined [head_node ''top'' ''Top'', section_One]]"

definition health_field :: jsval where
  "health_field = JObj [(''type'', JStr ''link''), (''tag'', JStr ''health''), (''value'', JStr ''OK'')]"

definition value_field :: jsval where
  "value_field = JObj [(''type'', JStr ''value''), (''value'', JNum 7)]"

definition unknown_link :: jsval where
  "unknown_link = JObj [(''type'', JStr ''link''), (''tag'', JStr ''unknown-tag'')]"

definition other_field :: jsval where
  "other_field = JObj [(''type'', JStr ''other'')]"

text \<open>A document \<open>[A, B, C]\<close> of a date label and two top-level sections.\<close>

definition abc_document :: jsval where
  "abc_document =
     JArr JUndefined
       [JArr JUndefined [head_node ''date'' ''2020-01-01''],
        JArr JUndefined [head_node ''b'' ''B''],
        JArr JUndefined [head_node ''c'' ''C'']]"

text \<open>The presentation tree of \<open>nested_document\<close>, once identified.\<close>

definition nested_rendering :: elem where
  "nested_rendering =
     ColumnList
       [Keyed (JArr JUndefined [JNum 1])
          (ColumnCard (JStr ''Top'')
             [Break,
              Keyed (JArr JUndefined [JNum 1, JNum 1])
                (Fragment
                   [Grid (Some classes_grid) (Typography 3 (JStr ''One'')),
                    Break,
                    Keyed (JArr JUndefined [JNum 1, JNum 1, JNum 1])
                      (Fragment [Grid (Some classes_grid) (Typography 4 (JStr ''Two''))])])])]"

declare Field.simps [simp del] Header.simps [simp del] TopLevelPaper.simps [simp del]

declare Field_st.simps [simp del] Header_st.simps [simp del] TopLevelPaper_st.simps [simp del]

section \<open>Properties\<close>

subsection \<open>Auxiliary facts\<close>

lemma childrenFromRest_Cons:
  "childrenFromRest head (row # rows) level history =
     (case dispatchChild head level history row of Inl e \<Rightarrow> Inl e | Inr pushed \<Rightarrow>
        (case childrenFromRest head rows level history of Inl e \<Rightarrow> Inl e
         | Inr children \<Rightarrow> Inr (pushed @ children)))"
  by (cases row) (simp_all add: dispatchChild_def split: sum.splits)

lemma childrenFromRest_append:
  "childrenFromRest head (xs @ ys) level history =
     (case childrenFromRest head xs level history of Inl e \<Rightarrow> Inl e | Inr a \<Rightarrow>
        (case childrenFromRest head ys level history of Inl e \<Rightarrow> Inl e | Inr b \<Rightarrow> Inr (a @ b)))"
  by (induction xs)
    (auto simp: childrenFromRest_Cons simp del: childrenFromRest.simps(2) split: sum.splits)

lemma Field_st_eq: "Field_st json = (Field json, json)"
  by (simp add: Field.simps Field_st.simps split: sum.splits)

lemma restructure_destructure:
  "destructure json = Inr (head, rest) \<Longrightarrow> restructure json rest = json"
  by (cases json rule: destructure.cases) auto

lemma walk_st_eq:
  fixes history :: 'h
  shows "childrenFromRest_st head rest level history =
           (childrenFromRest head rest level history, rest)"
    and "Header_st json level history = (Header json level history, json)"
proof (induction head rest level history and json level history
    rule: childrenFromRest_st_Header_st.induct)
  case (1 head level history)
  show ?case by simp
next
  case (2 head row rows level history)
  have first:
    "(if Array_isArray row then
        (if head = JStr ''shrimp'' then
           (case getprop row ''id'' of Inl e \<Rightarrow> (Inl e, row) | Inr k \<Rightarrow>
              (Inr [Keyed k (ShrimpField row)], row))
         else
           (case getprop row ''id'' of Inl e \<Rightarrow> (Inl e, row) | Inr k \<Rightarrow>
              (case Header_st row level history of
                 (Inl e, row') \<Rightarrow> (Inl e, row')
               | (Inr section, row') \<Rightarrow> (Inr [Break, Keyed k section], row'))))
      else
        (case getprop row ''id'' of Inl e \<Rightarrow> (Inl e, row) | Inr k \<Rightarrow>
           (case Field_st row of
              (Inl e, row') \<Rightarrow> (Inl e, row')
            | (Inr field, row') \<Rightarrow> (Inr [Keyed k field], row')))) =
     (dispatchChild head level history row, row)"
    using "2.IH"(1)
    by (auto simp: dispatchChild_def Field_st_eq split: sum.splits)
  show ?case
  proof (cases "dispatchChild head level history row")
    case (Inl e)
    with first show ?thesis
      by (simp add: childrenFromRest_Cons del: childrenFromRest.simps(2))
  next
    case (Inr pushed)
    with first "2.IH"(2) [of "Inr pushed" row pushed]
    have "childrenFromRest_st head rows level history =
        (childrenFromRest head rows level history, rows)"
      by simp
    with first Inr show ?thesis
      by (simp add: childrenFromRest_Cons del: childrenFromRest.simps(2) split: sum.splits)
  qed
next
  case (3 json level history)
  show ?case
  proof (cases "destructure json")
    case (Inl e)
    then show ?thesis by (simp add: Header.simps Header_st.simps)
  next
    case (Inr b)
    then obtain head rest where d: "destructure json = Inr (head, rest)" by (cases b) simp
    note r = restructure_destructure [OF d]
    show ?thesis
    proof (cases "getprop head ''tag''")
      case (Inl e)
      with d show ?thesis by (simp add: Header.simps Header_st.simps)
    next
      case (Inr tg)
      show ?thesis
      proof (cases "tg = JStr ''jupyter-activity''")
        case True
        with d Inr r show ?thesis
          by (simp add: Header.simps Header_st.simps split: sum.splits)
      next
        case False
        from "3.IH" [OF d refl Inr False]
        have "childrenFromRest_st tg rest (level + 1) history =
            (childrenFromRest tg rest (level + 1) history, rest)" .
        with d Inr r False show ?thesis
          by (simp add: Header.simps Header_st.simps split: sum.splits)
      qed
    qed
  qed
qed

lemma TopLevelPaper_st_eq: "TopLevelPaper_st json history = (TopLevelPaper json history, json)"
proof (cases "destructure json")
  case (Inl e)
  then show ?thesis by (simp add: TopLevelPaper.simps TopLevelPaper_st.simps)
next
  case (Inr b)
  then obtain head rest where d: "destructure json = Inr (head, rest)" by (cases b) simp
  with restructure_destructure [OF d] show ?thesis
    by (simp add: TopLevelPaper.simps TopLevelPaper_st.simps walk_st_eq split: sum.splits)
qed

lemma Array_map_st_eq:
  "(\<And>x. f x = (g x, x)) \<Longrightarrow> Array_map_st f xs = (Array_map g xs, xs)"
  by (induction xs) (simp_all split: sum.splits)

lemma Schedule_eq:
  "Schedule setIds json history =
     (if json = JNull then (Inr Loading, json)
      else
        ((case setIds json of
            JArr i xs \<Rightarrow>
              (case Array_map
                      (\<lambda>row. case getprop row ''id'' of Inl e \<Rightarrow> Inl e | Inr k \<Rightarrow>
                         (case TopLevelPaper row history of Inl e \<Rightarrow> Inl e
                          | Inr paper \<Rightarrow> Inr (Keyed k paper)))
                      (drop 1 xs)
               of Inl e \<Rightarrow> Inl e | Inr papers \<Rightarrow> Inr (ColumnList papers))
          | _ \<Rightarrow> Inl TypeError),
         setIds json))"
proof -
  have "Array_map_st
          (\<lambda>row. case getprop row ''id'' of Inl e \<Rightarrow> (Inl e, row) | Inr k \<Rightarrow>
             (case TopLevelPaper_st row history of
                (Inl e, row') \<Rightarrow> (Inl e, row')
              | (Inr paper, row') \<Rightarrow> (Inr (Keyed k paper), row'))) rows =
        (Array_map
          (\<lambda>row. case getprop row ''id'' of Inl e \<Rightarrow> Inl e | Inr k \<Rightarrow>
             (case TopLevelPaper row history of Inl e \<Rightarrow> Inl e
              | Inr paper \<Rightarrow> Inr (Keyed k paper))) rows, rows)" for rows
    by (rule Array_map_st_eq) (simp add: TopLevelPaper_st_eq split: sum.splits)
  then show ?thesis
    by (simp add: Schedule_def Let_def split: jsval.splits sum.splits)
qed

lemma Field_headings: "Field json = Inr f \<Longrightarrow> headings k f = []"
  by (auto simp: Field.simps split: sum.splits if_splits)

lemma subtree_sections_field: "\<not> Array_isArray row \<Longrightarrow> subtree_sections d row = []"
  by (cases row) simp_all

lemma sections_aux:
  fixes history :: 'h
  shows "\<forall>es k. childrenFromRest head rest level history = Inr es \<longrightarrow>
           concat (map (headings k) es) =
             map (\<lambda>(d, v). (d, level + d - Suc k, v)) (rest_sections head (Suc k) rest)"
    and "\<forall>s k. Array_isArray json \<and> Header json level history = Inr s \<longrightarrow>
           headings k s = map (\<lambda>(d, v). (d, level + d - Suc k, v)) (subtree_sections (Suc k) json)"
proof (induction head rest level history and json level history rule: childrenFromRest_Header.induct)
  case (1 head level history)
  then show ?case by simp
next
  case (2 head row rows level history)
  show ?case
  proof (intro allI impI)
    fix es k
    assume ok: "childrenFromRest head (row # rows) level history = Inr es"
    then obtain pushed children where
      p: "dispatchChild head level history row = Inr pushed" and
      c: "childrenFromRest head rows level history = Inr children" and
      es: "es = pushed @ children"
      by (auto simp: childrenFromRest_Cons simp del: childrenFromRest.simps(2) split: sum.splits)
    from p have raw: "(if Array_isArray row then
           (if head = JStr ''shrimp'' then
              (case getprop row ''id'' of Inl e \<Rightarrow> Inl e | Inr k \<Rightarrow>
                 Inr [Keyed k (ShrimpField row)])
            else
              (case getprop row ''id'' of Inl e \<Rightarrow> Inl e | Inr k \<Rightarrow>
                 (case Header row level history of Inl e \<Rightarrow> Inl e | Inr section \<Rightarrow>
                    Inr [Break, Keyed k section])))
         else
           (case getprop row ''id'' of Inl e \<Rightarrow> Inl e | Inr k \<Rightarrow>
              (case Field row of Inl e \<Rightarrow> Inl e | Inr field \<Rightarrow> Inr [Keyed k field]))) = Inr pushed"
      by (auto simp: dispatchChild_def split: sum.splits if_splits)
    from "2.IH"(2) [OF raw] c
    have rest: "concat (map (headings k) children) =
        map (\<lambda>(d, v). (d, level + d - Suc k, v)) (rest_sections head (Suc k) rows)"
      by blast
    have first: "concat (map (headings k) pushed) =
        map (\<lambda>(d, v). (d, level + d - Suc k, v))
          (if head = JStr ''shrimp'' then [] else subtree_sections (Suc k) row)"
    proof (cases "Array_isArray row")
      case False
      with p show ?thesis
        by (auto simp: dispatchChild_def Field_headings subtree_sections_field split: sum.splits)
    next
      case True
      show ?thesis
      proof (cases "head = JStr ''shrimp''")
        case True
        with \<open>Array_isArray row\<close> p show ?thesis
          by (auto simp: dispatchChild_def split: sum.splits)
      next
        case False
        with True p obtain kk s where
          kk: "getprop row ''id'' = Inr kk" and s: "Header row level history = Inr s" and
          pushed: "pushed = [Break, Keyed kk s]"
          by (auto simp: dispatchChild_def split: sum.splits)
        from "2.IH"(1) [OF True False kk] True s
        have "headings k s =
            map (\<lambda>(d, v). (d, level + d - Suc k, v)) (subtree_sections (Suc k) row)"
          by blast
        with False show ?thesis by (simp add: pushed)
      qed
    qed
    show "concat (map (headings k) es) =
        map (\<lambda>(d, v). (d, level + d - Suc k, v)) (rest_sections head (Suc k) (row # rows))"
      by (simp add: es first rest)
  qed
next
  case (3 json level history)
  show ?case
  proof (intro allI impI)
    fix s k
    assume "Array_isArray json \<and> Header json level history = Inr s"
    then have arr: "Array_isArray json" and ok: "Header json level history = Inr s" by simp_all
    from ok obtain head rest tg v children where
      d: "destructure json = Inr (head, rest)" and t: "getprop head ''tag'' = Inr tg" and
      v: "getprop head ''value'' = Inr v" and
      c: "(if tg = JStr ''jupyter-activity'' then Inr [JupyterActivity rest]
           else childrenFromRest tg rest (level + 1) history) = Inr children" and
      s: "s = Fragment (Grid (Some classes_grid) (Typography level v) # children)"
      by (auto simp: Header.simps split: sum.splits prod.splits)
    from arr d t obtain i where j: "json = JArr i (head # rest)"
      by (cases json rule: destructure.cases) auto
    have kids: "concat (map (headings (Suc k)) children) =
        map (\<lambda>(d, v). (d, level + d - Suc k, v))
          (if tg = JStr ''jupyter-activity'' then [] else rest_sections tg (Suc (Suc k)) rest)"
    proof (cases "tg = JStr ''jupyter-activity''")
      case True
      with c show ?thesis by auto
    next
      case False
      with c have "childrenFromRest tg rest (level + 1) history = Inr children" by simp
      with "3.IH" [OF d refl t False]
      have "concat (map (headings (Suc k)) children) =
          map (\<lambda>(d, v). (d, (level + 1) + d - Suc (Suc k), v)) (rest_sections tg (Suc (Suc k)) rest)"
        by blast
      with False show ?thesis by simp
    qed
    show "headings k s =
        map (\<lambda>(d, v). (d, level + d - Suc k, v)) (subtree_sections (Suc k) json)"
      using kids t v by (simp add: s j propval_def)
  qed
qed

lemma rest_sections_chars: "rest_sections tg d (map (\<lambda>c. JStr [c]) cs) = []"
  by (induction cs) simp_all

lemma TopLevelPaper_sections:
  assumes "TopLevelPaper json history = Inr paper"
  shows "headings 0 paper = map (\<lambda>(d, v). (d, d + 2, v)) (top_sections json)"
proof -
  from assms obtain head rest tg v children where
    d: "destructure json = Inr (head, rest)" and t: "getprop head ''tag'' = Inr tg" and
    c: "childrenFromRest tg rest 3 history = Inr children" and p: "paper = ColumnCard v children"
    by (auto simp: TopLevelPaper.simps split: sum.splits prod.splits)
  from sections_aux(1) [of tg rest 3 history] c
  have l: "concat (map (headings 0) children) =
      map (\<lambda>(d, v). (d, 3 + d - Suc 0, v)) (rest_sections tg (Suc 0) rest)"
    by blast
  have "rest_sections tg (Suc 0) rest = top_sections json"
    using d t by (cases json rule: destructure.cases) (auto simp: propval_def rest_sections_chars)
  with l show ?thesis by (simp add: p)
qed

lemma Array_map_Inr:
  "Array_map f xs = Inr ys \<Longrightarrow> length ys = length xs \<and> (\<forall>n<length xs. f (xs ! n) = Inr (ys ! n))"
proof (induction xs arbitrary: ys)
  case Nil
  then show ?case by simp
next
  case (Cons x xs)
  then obtain y ys' where y: "f x = Inr y" and r: "Array_map f xs = Inr ys'" and e: "ys = y # ys'"
    by (auto split: sum.splits)
  from Cons.IH [OF r] y e show ?case by (auto simp: nth_Cons split: nat.splits)
qed

lemma Array_map_iff:
  "(Array_map f xs = Inr ys) =
     (length ys = length xs \<and> (\<forall>n<length xs. f (xs ! n) = Inr (ys ! n)))"
proof (induction xs arbitrary: ys)
  case Nil
  show ?case by auto
next
  case (Cons x xs)
  show ?case
  proof (cases ys)
    case Nil
    then show ?thesis by (auto split: sum.splits)
  next
    case (Cons y ys')
    have "(\<forall>n<Suc (length xs). f ((x # xs) ! n) = Inr ((y # ys') ! n)) =
        (f x = Inr y \<and> (\<forall>n<length xs. f (xs ! n) = Inr (ys' ! n)))"
      by (auto simp: nth_Cons split: nat.splits simp: less_Suc_eq_0_disj)
    with Cons.IH [of ys'] Cons show ?thesis
      by (auto split: sum.splits)
  qed
qed

lemma papers_Inr:
  assumes "Array_map (\<lambda>row. case getprop row ''id'' of Inl e \<Rightarrow> Inl e | Inr k \<Rightarrow>
                            (case TopLevelPaper row history of Inl e \<Rightarrow> Inl e
                             | Inr paper \<Rightarrow> Inr (Keyed k paper))) rows = Inr papers"
  shows "length papers = length rows"
    and "n < length rows \<Longrightarrow> \<exists>k paper. getprop (rows ! n) ''id'' = Inr k \<and>
           TopLevelPaper (rows ! n) history = Inr paper \<and> papers ! n = Keyed k paper"
proof -
  note m = Array_map_Inr [OF assms]
  from m show "length papers = length rows" by simp
  assume "n < length rows"
  with m have "(case getprop (rows ! n) ''id'' of Inl e \<Rightarrow> Inl e | Inr k \<Rightarrow>
                  (case TopLevelPaper (rows ! n) history of Inl e \<Rightarrow> Inl e
                   | Inr paper \<Rightarrow> Inr (Keyed k paper))) = Inr (papers ! n)"
    by simp
  then show "\<exists>k paper. getprop (rows ! n) ''id'' = Inr k \<and>
           TopLevelPaper (rows ! n) history = Inr paper \<and> papers ! n = Keyed k paper"
    by (auto split: sum.splits)
qed

lemma Schedule_loaded:
  assumes "json \<noteq> JNull" and "fst (Schedule setIds json history) = Inr out"
  shows "\<exists>i xs papers. setIds json = JArr i xs \<and> out = ColumnList papers \<and>
           Array_map (\<lambda>row. case getprop row ''id'' of Inl e \<Rightarrow> Inl e | Inr k \<Rightarrow>
                            (case TopLevelPaper row history of Inl e \<Rightarrow> Inl e
                             | Inr paper \<Rightarrow> Inr (Keyed k paper))) (drop 1 xs) = Inr papers"
  using assms by (auto simp: Schedule_eq Let_def split: jsval.splits sum.splits)

lemma papers_sections:
  "Array_map (\<lambda>row. case getprop row ''id'' of Inl e \<Rightarrow> Inl e | Inr k \<Rightarrow>
                (case TopLevelPaper row history of Inl e \<Rightarrow> Inl e
                 | Inr paper \<Rightarrow> Inr (Keyed k paper))) rows = Inr papers \<Longrightarrow>
   concat (map (headings 0) papers) =
     map (\<lambda>(d, v). (d, d + 2, v)) (concat (map top_sections rows))"
proof (induction rows arbitrary: papers)
  case Nil
  then show ?case by simp
next
  case (Cons row rows)
  from Cons.prems obtain k paper ps where
    tp: "TopLevelPaper row history = Inr paper" and
    r: "Array_map (\<lambda>row. case getprop row ''id'' of Inl e \<Rightarrow> Inl e | Inr k \<Rightarrow>
                (case TopLevelPaper row history of Inl e \<Rightarrow> Inl e
                 | Inr paper \<Rightarrow> Inr (Keyed k paper))) rows = Inr ps" and
    e: "papers = Keyed k paper # ps"
    by (auto split: sum.splits)
  from Cons.IH [OF r] TopLevelPaper_sections [OF tp] show ?case by (simp add: e)
qed

lemma Field_record: "\<exists>f. Field (JObj kvs) = Inr f"
  by (simp add: Field.simps)

lemma renders_aux:
  fixes history :: 'h
  shows "list_all well_formed rest \<longrightarrow> (\<exists>es. childrenFromRest head rest level history = Inr es)"
    and "Array_isArray json \<and> well_formed json \<longrightarrow> (\<exists>s. Header json level history = Inr s)"
proof (induction head rest level history and json level history rule: childrenFromRest_Header.induct)
  case (1 head level history)
  then show ?case by simp
next
  case (2 head row rows level history)
  show ?case
  proof
    assume wf: "list_all well_formed (row # rows)"
    then have row: "well_formed row" and rows: "list_all well_formed rows" by simp_all
    obtain k where k: "getprop row ''id'' = Inr k"
      using row by (cases row) auto
    have "\<exists>pushed. dispatchChild head level history row = Inr pushed"
    proof (cases "Array_isArray row")
      case True
      show ?thesis
      proof (cases "head = JStr ''shrimp''")
        case True
        with \<open>Array_isArray row\<close> k show ?thesis by (simp add: dispatchChild_def)
      next
        case False
        from "2.IH"(1) [OF True False k] True row obtain s where "Header row level history = Inr s"
          by blast
        with True False k show ?thesis by (simp add: dispatchChild_def)
      qed
    next
      case False
      with row obtain kvs where "row = JObj kvs" by (cases row rule: well_formed.cases) auto
      with k Field_record [of kvs] show ?thesis by (auto simp: dispatchChild_def)
    qed
    then obtain pushed where p: "dispatchChild head level history row = Inr pushed" ..
    then have "(if Array_isArray row then
           (if head = JStr ''shrimp'' then
              (case getprop row ''id'' of Inl e \<Rightarrow> Inl e | Inr k \<Rightarrow>
                 Inr [Keyed k (ShrimpField row)])
            else
              (case getprop row ''id'' of Inl e \<Rightarrow> Inl e | Inr k \<Rightarrow>
                 (case Header row level history of Inl e \<Rightarrow> Inl e | Inr section \<Rightarrow>
                    Inr [Break, Keyed k section])))
         else
           (case getprop row ''id'' of Inl e \<Rightarrow> Inl e | Inr k \<Rightarrow>
              (case Field row of Inl e \<Rightarrow> Inl e | Inr field \<Rightarrow> Inr [Keyed k field]))) = Inr pushed"
      by (auto simp: dispatchChild_def split: sum.splits if_splits)
    from "2.IH"(2) [OF this] rows obtain es where "childrenFromRest head rows level history = Inr es"
      by blast
    with p show "\<exists>es. childrenFromRest head (row # rows) level history = Inr es"
      by (simp add: childrenFromRest_Cons del: childrenFromRest.simps(2))
  qed
next
  case (3 json level history)
  show ?case
  proof
    assume "Array_isArray json \<and> well_formed json"
    then obtain i kvs rest where j: "json = JArr i (JObj kvs # rest)" and r: "list_all well_formed rest"
      by (cases json rule: well_formed.cases) auto
    show "\<exists>s. Header json level history = Inr s"
    proof (cases "getprop (JObj kvs) ''tag'' = Inr (JStr ''jupyter-activity'')")
      case True
      then show ?thesis by (simp add: j Header.simps)
    next
      case False
      obtain tg where tg: "getprop (JObj kvs) ''tag'' = Inr tg" by simp
      with False have ne: "tg \<noteq> JStr ''jupyter-activity''" by simp
      have d: "destructure json = Inr (JObj kvs, rest)" by (simp add: j)
      from "3.IH" [OF d refl tg ne] r obtain es where
        "childrenFromRest tg rest (level + 1) history = Inr es" by blast
      with tg ne show ?thesis by (simp add: j Header.simps)
    qed
  qed
qed

lemma childrenFromRest_renders:
  "list_all well_formed rest \<Longrightarrow> \<exists>es. childrenFromRest head rest level history = Inr es"
  by (rule renders_aux(1) [rule_format])

lemma TopLevelPaper_renders:
  assumes "Array_isArray json" and "well_formed json"
  shows "\<exists>v children. TopLevelPaper json history = Inr (ColumnCard v children)"
proof -
  from assms obtain i kvs rest where j: "json = JArr i (JObj kvs # rest)" and r: "list_all well_formed rest"
    by (cases json rule: well_formed.cases) auto
  obtain tg where tg: "getprop (JObj kvs) ''tag'' = Inr tg" by simp
  from childrenFromRest_renders [OF r, of tg 3 history] obtain es where
    "childrenFromRest tg rest 3 history = Inr es" by blast
  with tg show ?thesis by (simp add: j TopLevelPaper.simps)
qed

lemma TopLevelPaper_card:
  "TopLevelPaper json history = Inr paper \<Longrightarrow> \<exists>v children. paper = ColumnCard v children"
  by (auto simp: TopLevelPaper.simps split: sum.splits prod.splits)

lemma Array_map_total:
  "\<forall>x\<in>set xs. \<exists>y. f x = Inr y \<Longrightarrow> \<exists>ys. Array_map f xs = Inr ys"
proof (induction xs)
  case Nil
  then show ?case by simp
next
  case (Cons x xs)
  then obtain y ys where "f x = Inr y" and "Array_map f xs = Inr ys" by auto
  then show ?case by simp
qed

lemma Schedule_array:
  assumes "json \<noteq> JNull" and "setIds json = JArr i xs"
  shows "fst (Schedule setIds json history) =
           (case Array_map (\<lambda>row. case getprop row ''id'' of Inl e \<Rightarrow> Inl e | Inr k \<Rightarrow>
                            (case TopLevelPaper row history of Inl e \<Rightarrow> Inl e
                             | Inr paper \<Rightarrow> Inr (Keyed k paper))) (drop 1 xs)
            of Inl e \<Rightarrow> Inl e | Inr papers \<Rightarrow> Inr (ColumnList papers))"
  using assms by (simp add: Schedule_eq)

lemma assignId_idem:
  "assignId p (assignId p v) = assignId p v"
  "assignIdsFrom p n (assignIdsFrom p n xs) = assignIdsFrom p n xs"
  by (induction p v and p n xs rule: assignId_assignIdsFrom.induct) simp_all

lemma assignIds_idem: "assignIds (assignIds d) = assignIds d"
  by (cases d) (simp_all add: assignId_idem)

lemma assignIds_JNull: "(assignIds d = JNull) = (d = JNull)"
  by (cases d) simp_all

lemma eraseIds_assignId:
  "eraseIds (assignId p v) = eraseIds v"
  "map eraseIds (assignIdsFrom p n xs) = map eraseIds xs"
  by (induction p v and p n xs rule: assignId_assignIdsFrom.induct)
    (simp_all add: delete_update_same)

lemma eraseIds_assignIds: "eraseIds (assignIds d) = eraseIds d"
  by (cases d) (simp_all add: eraseIds_assignId)

lemma nested_document_renders:
  "fst (Schedule assignIds nested_document ()) = Inr nested_rendering"
  by (simp add: Schedule_eq nested_document_def section_One_def section_Two_def head_node_def nested_rendering_def TopLevelPaper.simps Header.simps)

subsection \<open>What rendering does to the document\<close>

text \<open>
  C1 (as the code has it). \<open>Schedule\<close> itself runs the id pre-pass on every document
  that is not null, and that is the only write of a rendering: \<open>TopLevelPaper\<close>,
  \<open>Header\<close>, \<open>childrenFromRest\<close> and \<open>Field\<close> leave every node they are handed as
  they find it, so the document after rendering \<open>d\<close> is \<open>setIds d\<close> (\<open>d\<close> itself
  when \<open>d\<close> is null), whether the rendering succeeds or throws. With the pre-pass of the
  specification this differs from \<open>d\<close> in nothing but the identifiers of its nodes, so
  no node is created or destroyed, and rendering the document again leaves it as it is.
\<close>

theorem Schedule_document:
  "snd (Schedule setIds d history) = (if d = JNull then d else setIds d) \<and>
   snd (TopLevelPaper_st row history) = row \<and>
   snd (Header_st json level history) = json \<and>
   snd (childrenFromRest_st head rest level history) = rest \<and>
   snd (Field_st field) = field \<and>
   eraseIds (snd (Schedule assignIds d history)) = eraseIds d \<and>
   snd (Schedule assignIds (snd (Schedule assignIds d history)) history) =
     snd (Schedule assignIds d history)"
  by (simp add: Schedule_eq walk_st_eq TopLevelPaper_st_eq Field_st_eq
      assignIds_idem assignIds_JNull eraseIds_assignIds)

theorem Schedule_document_witness:
  "snd (Schedule assignIds nested_document ()) = assignIds nested_document \<and>
   snd (Header_st section_One 3 ()) = section_One \<and>
   eraseIds (snd (Schedule assignIds nested_document ())) = eraseIds nested_document \<and>
   snd (Schedule assignIds (snd (Schedule assignIds nested_document ())) ()) =
     snd (Schedule assignIds nested_document ())"
proof -
  have n: "nested_document \<noteq> JNull"
    by (simp add: nested_document_def)
  show ?thesis
    using Schedule_document [where setIds = assignIds and d = nested_document
        and history = "()" and json = section_One and level = 3]
    unfolding if_not_P [OF n] by blast
qed

text \<open>
  C1 as stated fails: rendering \<open>nested_document\<close>, whose nodes carry no identifier
  yet, changes it.
\<close>

theorem Schedule_document_counterexample:
  "snd (Schedule assignIds nested_document ()) \<noteq> nested_document"
  by (simp add: Schedule_eq nested_document_def section_One_def section_Two_def head_node_def)

subsection \<open>Heading levels\<close>

text \<open>
  C2 (as the code has it). Whenever a document renders, the headings of the presentation
  tree are those of the sections of the document, one for each in document order, and the
  heading of a section has level 2 plus the section's nesting distance below its top-level
  section: 3 for a section directly in a top-level section, 4 for a section nested two
  levels deep, one more for each further level. \<open>TopLevelPaper\<close> starts the dispatcher
  at 3, the dispatcher hands its own level to \<open>Header\<close>, and \<open>Header\<close> adds 1 for the
  sections below it.
\<close>

theorem heading_levels:
  assumes "fst (Schedule setIds json history) = Inr out"
  shows "headings 0 out =
           map (\<lambda>(d, v). (d, d + 2, v)) (document_sections (snd (Schedule setIds json history)))"
proof (cases "json = JNull")
  case True
  with assms show ?thesis by (auto simp: Schedule_eq document_sections_def)
next
  case False
  from Schedule_loaded [OF False assms] obtain i xs papers where
    a: "setIds json = JArr i xs" and
    m: "Array_map (\<lambda>row. case getprop row ''id'' of Inl e \<Rightarrow> Inl e | Inr k \<Rightarrow>
                            (case TopLevelPaper row history of Inl e \<Rightarrow> Inl e
                             | Inr paper \<Rightarrow> Inr (Keyed k paper))) (drop 1 xs) = Inr papers"
    and out: "out = ColumnList papers"
    by blast
  from False a have "snd (Schedule setIds json history) = JArr i xs"
    by (simp add: Schedule_eq)
  with papers_sections [OF m] show ?thesis
    by (simp add: out document_sections_def)
qed

theorem heading_levels_witness:
  "fst (Schedule assignIds nested_document ()) = Inr nested_rendering \<and>
   document_sections (snd (Schedule assignIds nested_document ())) =
     [(1, JStr ''One''), (2, JStr ''Two'')] \<and>
   headings 0 nested_rendering = [(1, 3, JStr ''One''), (2, 4, JStr ''Two'')]"
proof -
  have r: "fst (Schedule assignIds nested_document ()) = Inr nested_rendering"
    by (rule nested_document_renders)
  have s: "document_sections (snd (Schedule assignIds nested_document ())) =
     [(1, JStr ''One''), (2, JStr ''Two'')]"
    by (simp add: Schedule_eq document_sections_def propval_def nested_document_def section_One_def section_Two_def head_node_def)
  show ?thesis using r s heading_levels [OF r] by simp
qed

text \<open>
  C2 as stated fails: in \<open>nested_document\<close> the section \<open>Two\<close> is nested two levels deep
  under the top-level section \<open>Top\<close> and its heading has level 4, not 5; the section
  \<open>One\<close>, one level below \<open>Top\<close>, has level 3, not 4.
\<close>

theorem heading_levels_counterexample:
  "fst (Schedule assignIds nested_document ()) = Inr nested_rendering \<and>
   headings 0 nested_rendering = [(1, 3, JStr ''One''), (2, 4, JStr ''Two'')]"
  by (simp add: nested_document_renders) (simp add: nested_rendering_def)

subsection \<open>The top-level containers\<close>

text \<open>
  C3. For a loaded document whose identified form is \<open>a # rows\<close>: when the rows are
  subtrees the document renders; and whenever it renders, the output is a column list of
  exactly one card per row, the \<open>n\<close>-th card being the rendering of the \<open>n\<close>-th row under
  that row's key. Element 0 appears nowhere: any loaded document with the same rows after
  element 0 renders the same.
\<close>

theorem Schedule_papers:
  assumes "json \<noteq> JNull" and "setIds json = JArr i (a # rows)"
  shows "(list_all (\<lambda>row. Array_isArray row \<and> well_formed row) rows \<longrightarrow>
            (\<exists>papers. fst (Schedule setIds json history) = Inr (ColumnList papers))) \<and>
         (\<forall>out. fst (Schedule setIds json history) = Inr out \<longrightarrow>
            (\<exists>papers. out = ColumnList papers \<and> length papers = length rows \<and>
               (\<forall>n<length rows. \<exists>k v children.
                  getprop (rows ! n) ''id'' = Inr k \<and>
                  TopLevelPaper (rows ! n) history = Inr (ColumnCard v children) \<and>
                  papers ! n = Keyed k (ColumnCard v children)))) \<and>
         (\<forall>setIds' json' i' a'. json' \<noteq> JNull \<and> setIds' json' = JArr i' (a' # rows) \<longrightarrow>
            fst (Schedule setIds' json' history) = fst (Schedule setIds json history))"
proof (intro conjI impI allI)
  fix setIds' :: "jsval \<Rightarrow> jsval" and json' i' a'
  assume "json' \<noteq> JNull \<and> setIds' json' = JArr i' (a' # rows)"
  then have "json' \<noteq> JNull" and "setIds' json' = JArr i' (a' # rows)" by simp_all
  from Schedule_array [where setIds = setIds', OF this]
  show "fst (Schedule setIds' json' history) = fst (Schedule setIds json history)"
    by (simp add: Schedule_array [where setIds = setIds, OF assms])
next
  assume wf: "list_all (\<lambda>row. Array_isArray row \<and> well_formed row) rows"
  have "\<forall>row\<in>set rows. \<exists>y. (case getprop row ''id'' of Inl e \<Rightarrow> Inl e | Inr k \<Rightarrow>
                (case TopLevelPaper row history of Inl e \<Rightarrow> Inl e
                 | Inr paper \<Rightarrow> Inr (Keyed k paper))) = Inr y"
  proof
    fix row
    assume "row \<in> set rows"
    with wf have r: "Array_isArray row" "well_formed row" by (auto simp: list_all_iff)
    from TopLevelPaper_renders [OF r, of history] obtain v children where
      "TopLevelPaper row history = Inr (ColumnCard v children)" by blast
    moreover from r obtain k where "getprop row ''id'' = Inr k" by (cases row) auto
    ultimately show "\<exists>y. (case getprop row ''id'' of Inl e \<Rightarrow> Inl e | Inr k \<Rightarrow>
                (case TopLevelPaper row history of Inl e \<Rightarrow> Inl e
                 | Inr paper \<Rightarrow> Inr (Keyed k paper))) = Inr y" by simp
  qed
  from Array_map_total [OF this] obtain papers where
    "Array_map (\<lambda>row. case getprop row ''id'' of Inl e \<Rightarrow> Inl e | Inr k \<Rightarrow>
                            (case TopLevelPaper row history of Inl e \<Rightarrow> Inl e
                             | Inr paper \<Rightarrow> Inr (Keyed k paper))) rows = Inr papers"
    by (elim exE)
  then show "\<exists>papers. fst (Schedule setIds json history) = Inr (ColumnList papers)"
    by (simp add: Schedule_array [where setIds = setIds, OF assms])
next
  fix out
  assume "fst (Schedule setIds json history) = Inr out"
  then obtain papers where
    m: "Array_map (\<lambda>row. case getprop row ''id'' of Inl e \<Rightarrow> Inl e | Inr k \<Rightarrow>
                            (case TopLevelPaper row history of Inl e \<Rightarrow> Inl e
                             | Inr paper \<Rightarrow> Inr (Keyed k paper))) rows = Inr papers"
    and out: "out = ColumnList papers"
    by (auto simp: Schedule_array [where setIds = setIds, OF assms] split: sum.splits)
  have "\<exists>k v children. getprop (rows ! n) ''id'' = Inr k \<and>
          TopLevelPaper (rows ! n) history = Inr (ColumnCard v children) \<and>
          papers ! n = Keyed k (ColumnCard v children)" if "n < length rows" for n
  proof -
    from papers_Inr(2) [OF m that] obtain k paper where
      kp: "getprop (rows ! n) ''id'' = Inr k" "TopLevelPaper (rows ! n) history = Inr paper"
        "papers ! n = Keyed k paper"
      by blast
    with TopLevelPaper_card [OF kp(2)] show ?thesis by auto
  qed
  with papers_Inr(1) [OF m] out
  show "\<exists>papers. out = ColumnList papers \<and> length papers = length rows \<and>
               (\<forall>n<length rows. \<exists>k v children.
                  getprop (rows ! n) ''id'' = Inr k \<and>
                  TopLevelPaper (rows ! n) history = Inr (ColumnCard v children) \<and>
                  papers ! n = Keyed k (ColumnCard v children))"
    by blast
qed

theorem Schedule_papers_witness:
  "fst (Schedule assignIds abc_document ()) =
     Inr (ColumnList
            [Keyed (JArr JUndefined [JNum 1]) (ColumnCard (JStr ''B'') []),
             Keyed (JArr JUndefined [JNum 2]) (ColumnCard (JStr ''C'') [])])"
proof -
  have n: "abc_document \<noteq> JNull"
    by (simp add: abc_document_def)
  have a: "assignIds abc_document =
      JArr JUndefined
        (JArr (JArr JUndefined [JNum 0])
           [JObj [(''tag'', JStr ''date''), (''value'', JStr ''2020-01-01''),
                  (''id'', JArr JUndefined [JNum 0, JNum 0])]] #
         [JArr (JArr JUndefined [JNum 1])
            [JObj [(''tag'', JStr ''b''), (''value'', JStr ''B''),
                   (''id'', JArr JUndefined [JNum 1, JNum 0])]],
          JArr (JArr JUndefined [JNum 2])
            [JObj [(''tag'', JStr ''c''), (''value'', JStr ''C''),
                   (''id'', JArr JUndefined [JNum 2, JNum 0])]]])"
    by (simp add: abc_document_def head_node_def)
  show ?thesis
    using Schedule_papers [where setIds = assignIds, OF n a, of "()"]
    by (simp add: Schedule_eq n a TopLevelPaper.simps)
qed

subsection \<open>Children of a shrimp section\<close>

text \<open>
  C4. Under a parent tagged \<open>shrimp\<close>, a subtree child \<open>e\<close> contributes exactly one
  element, \<open>ShrimpField\<close> applied to \<open>e\<close> under the key \<open>e.id\<close>: no separator, no
  heading, and \<open>Header\<close> is not called on it, whatever \<open>e\<close> holds. The elements before
  and after are those of the other children.
\<close>

theorem shrimp_subtree:
  "childrenFromRest (JStr ''shrimp'') (pre @ JArr i xs # post) level history =
     (case childrenFromRest (JStr ''shrimp'') pre level history of Inl e \<Rightarrow> Inl e
      | Inr before \<Rightarrow>
          (case childrenFromRest (JStr ''shrimp'') post level history of Inl e \<Rightarrow> Inl e
           | Inr after \<Rightarrow> Inr (before @ Keyed i (ShrimpField (JArr i xs)) # after)))"
  by (simp add: childrenFromRest_append split: sum.splits)

theorem shrimp_subtree_witness:
  "childrenFromRest (JStr ''shrimp'') [value_field, section_One] 3 () =
     Inr [Keyed JUndefined (SummaryField value_field), Keyed JUndefined (ShrimpField section_One)] \<and>
   TopLevelPaper (JArr JUndefined [head_node ''shrimp'' ''Shrimp'', section_One]) () =
     Inr (ColumnCard (JStr ''Shrimp'') [Keyed JUndefined (ShrimpField section_One)])"
  using shrimp_subtree [of "[value_field]" JUndefined "[head_node ''one'' ''One'', section_Two]" "[]" 3 "()"]
    shrimp_subtree [of "[]" JUndefined "[head_node ''one'' ''One'', section_Two]" "[]" 3 "()"]
  by (simp add: Field.simps TopLevelPaper.simps value_field_def section_One_def section_Two_def head_node_def)

subsection \<open>The jupyter-activity section\<close>

text \<open>
  C5 (as the code has it). For every subtree handed to the Section Renderer \<open>Header\<close>, a
  subtree child of a parent that is not tagged \<open>shrimp\<close>, whose head tag is
  \<open>jupyter-activity\<close>: the section is its heading followed by the single element
  \<open>JupyterActivity\<close> holding the whole \<open>rest\<close>, whatever the elements of \<open>rest\<close>
  are; the dispatcher is not run on them.
\<close>

theorem Header_jupyter_activity:
  assumes "getprop head ''tag'' = Inr (JStr ''jupyter-activity'')"
  shows "\<exists>v. getprop head ''value'' = Inr v \<and>
           Header (JArr i (head # rest)) level history =
             Inr (Fragment [Grid (Some classes_grid) (Typography level v), JupyterActivity rest])"
  using assms by (cases head) (simp_all add: Header.simps)

theorem Header_jupyter_activity_witness:
  "Header (JArr JUndefined [head_node ''jupyter-activity'' ''Notebook'', JNull, value_field]) 3 () =
     Inr (Fragment [Grid (Some classes_grid) (Typography 3 (JStr ''Notebook'')),
                    JupyterActivity [JNull, value_field]]) \<and>
   childrenFromRest (JStr ''jupyter-activity'') [JNull, value_field] (3 + 1) () = Inl TypeError"
proof -
  have t: "getprop (head_node ''jupyter-activity'' ''Notebook'') ''tag'' = Inr (JStr ''jupyter-activity'')"
    by (simp add: head_node_def)
  show ?thesis
    using Header_jupyter_activity [OF t, of JUndefined "[JNull, value_field]" 3 "()"]
    by (simp add: head_node_def)
qed

text \<open>
  C5 as stated fails for a top-level subtree: \<open>TopLevelPaper\<close> has no such case and
  dispatches the elements after a \<open>jupyter-activity\<close> head one by one, here a value field
  to \<open>SummaryField\<close>.
\<close>

theorem jupyter_activity_counterexample:
  "TopLevelPaper (JArr JUndefined [head_node ''jupyter-activity'' ''Notebook'', value_field]) () =
     Inr (ColumnCard (JStr ''Notebook'') [Keyed JUndefined (SummaryField value_field)])"
  by (simp add: TopLevelPaper.simps Field.simps head_node_def value_field_def)

subsection \<open>Fields\<close>

text \<open>
  C6. A field of type \<open>link\<close> and tag \<open>health\<close> renders as a link button to the fixed
  address \<open>api/jupyter/health\<close> whose label is the field's value.
\<close>

theorem Field_health_link:
  assumes "getprop json ''type'' = Inr (JStr ''link'')"
    and "getprop json ''tag'' = Inr (JStr ''health'')"
  shows "\<exists>v. getprop json ''value'' = Inr v \<and>
           Field json = Inr (LinkButton ''api/jupyter/health'' (Text [Val v]))"
  using assms by (cases json) (simp_all add: Field.simps)

theorem Field_health_link_witness:
  "Field health_field = Inr (LinkButton ''api/jupyter/health'' (Text [Val (JStr ''OK'')]))"
proof -
  have ty: "getprop health_field ''type'' = Inr (JStr ''link'')"
    and tg: "getprop health_field ''tag'' = Inr (JStr ''health'')"
    by (simp_all add: health_field_def)
  show ?thesis using Field_health_link [OF ty tg] by (simp add: health_field_def)
qed

text \<open>
  C7. A field that is not an array, whose type is not \<open>value\<close> and which, when its type
  is \<open>link\<close>, has a tag other than \<open>health\<close> and \<open>all-activities\<close>, renders without
  an error as the text \<open>Unsupported link: \<close> (type \<open>link\<close>) or \<open>Unsupported type: \<close>
  (any other type) followed by the JSON dump of the field; among its siblings it
  contributes exactly that element, and the siblings before and after render as they do
  without it.
\<close>

theorem Field_unsupported:
  assumes "getprop f ''type'' = Inr ty" and "getprop f ''tag'' = Inr tg"
    and "getprop f ''id'' = Inr k" and "\<not> Array_isArray f"
    and "ty \<noteq> JStr ''value''"
    and "ty = JStr ''link'' \<longrightarrow> tg \<noteq> JStr ''health'' \<and> tg \<noteq> JStr ''all-activities''"
  shows "Field f =
           Inr (Grid None (Text [Str (if ty = JStr ''link'' then ''Unsupported link: ''
                                      else ''Unsupported type: ''), Stringify f])) \<and>
         childrenFromRest head (pre @ f # post) level history =
           (case childrenFromRest head pre level history of Inl e \<Rightarrow> Inl e
            | Inr before \<Rightarrow>
                (case childrenFromRest head post level history of Inl e \<Rightarrow> Inl e
                 | Inr after \<Rightarrow>
                     Inr (before @
                          Keyed k (Grid None (Text [Str (if ty = JStr ''link''
                                                         then ''Unsupported link: ''
                                                         else ''Unsupported type: ''),
                                                    Stringify f])) # after)))"
proof -
  have f: "Field f =
           Inr (Grid None (Text [Str (if ty = JStr ''link'' then ''Unsupported link: ''
                                      else ''Unsupported type: ''), Stringify f]))"
    using assms by (simp add: Field.simps)
  have "dispatchChild head level history f =
          Inr [Keyed k (Grid None (Text [Str (if ty = JStr ''link'' then ''Unsupported link: ''
                                      else ''Unsupported type: ''), Stringify f]))]"
    using assms(3,4) f by (simp add: dispatchChild_def)
  then show ?thesis
    using f by (simp add: childrenFromRest_append childrenFromRest_Cons
        del: childrenFromRest.simps(2) split: sum.splits)
qed

theorem Field_unsupported_witness:
  "Field unknown_link = Inr (Grid None (Text [Str ''Unsupported link: '', Stringify unknown_link])) \<and>
   childrenFromRest (JStr ''top'') [value_field, unknown_link, health_field] 3 () =
     Inr [Keyed JUndefined (SummaryField value_field),
          Keyed JUndefined (Grid None (Text [Str ''Unsupported link: '', Stringify unknown_link])),
          Keyed JUndefined (LinkButton ''api/jupyter/health'' (Text [Val (JStr ''OK'')]))] \<and>
   Field other_field = Inr (Grid None (Text [Str ''Unsupported type: '', Stringify other_field]))"
proof -
  have l: "getprop unknown_link ''type'' = Inr (JStr ''link'')"
    "getprop unknown_link ''tag'' = Inr (JStr ''unknown-tag'')"
    "getprop unknown_link ''id'' = Inr JUndefined" "\<not> Array_isArray unknown_link"
    "JStr ''link'' \<noteq> JStr ''value''"
    "JStr ''link'' = JStr ''link'' \<longrightarrow>
       JStr ''unknown-tag'' \<noteq> JStr ''health'' \<and> JStr ''unknown-tag'' \<noteq> JStr ''all-activities''"
    by (simp_all add: unknown_link_def)
  have t: "getprop other_field ''type'' = Inr (JStr ''other'')"
    "getprop other_field ''tag'' = Inr JUndefined"
    "getprop other_field ''id'' = Inr JUndefined" "\<not> Array_isArray other_field"
    "JStr ''other'' \<noteq> JStr ''value''"
    "JStr ''other'' = JStr ''link'' \<longrightarrow>
       JUndefined \<noteq> JStr ''health'' \<and> JUndefined \<noteq> JStr ''all-activities''"
    by (simp_all add: other_field_def)
  show ?thesis
    using Field_unsupported [OF l, of "JStr ''top''" "[value_field]" "[health_field]" 3 "()"]
      Field_unsupported [OF t, of "JStr ''top''" "[]" "[]" 3 "()"]
    by (simp add: Field.simps value_field_def health_field_def)
qed

subsection \<open>The dispatcher\<close>

text \<open>
  C8 (as the code has it). The dispatcher maps the elements of \<open>rest\<close> in order, each
  to what \<open>dispatchChild\<close> gives for it, and concatenates: a generic subtree child gives
  one separator followed by its section, rendered by the Section Renderer at the
  dispatcher's own depth; an error for any element is the error of the whole.
\<close>

theorem childrenFromRest_dispatch:
  "childrenFromRest parentTag rest depth history =
     (case Array_map (dispatchChild parentTag depth history) rest of Inl e \<Rightarrow> Inl e
      | Inr outs \<Rightarrow> Inr (concat outs))"
  by (induction rest)
    (auto simp: childrenFromRest_Cons simp del: childrenFromRest.simps(2) split: sum.splits)

theorem childrenFromRest_dispatch_witness:
  "childrenFromRest (JStr ''top'') [value_field, section_Two, health_field] 3 () =
     Inr [Keyed JUndefined (SummaryField value_field),
          Break,
          Keyed JUndefined (Fragment [Grid (Some classes_grid) (Typography 3 (JStr ''Two''))]),
          Keyed JUndefined (LinkButton ''api/jupyter/health'' (Text [Val (JStr ''OK'')]))]"
  unfolding childrenFromRest_dispatch
  by (simp add: dispatchChild_def Header.simps Field.simps value_field_def health_field_def section_Two_def head_node_def)

text \<open>
  C8 as stated fails: at depth 3 the section \<open>Two\<close> is rendered with a heading of level 3,
  not by the Section Renderer at depth 4.
\<close>

theorem childrenFromRest_dispatch_counterexample:
  "childrenFromRest (JStr ''top'') [section_Two] 3 () =
     Inr [Break,
          Keyed JUndefined (Fragment [Grid (Some classes_grid) (Typography 3 (JStr ''Two''))])] \<and>
   childrenFromRest (JStr ''top'') [section_Two] 3 () \<noteq>
     (case Array_map (dispatchChild (JStr ''top'') (3 + 1) ()) [section_Two] of
        Inl e \<Rightarrow> Inl e | Inr outs \<Rightarrow> Inr (concat outs))"
  by (simp add: dispatchChild_def Header.simps section_Two_def head_node_def)

subsection \<open>Rendering twice\<close>

text \<open>
  C9. Rendering a document and then rendering it again, as the first rendering left it,
  gives the same presentation tree and leaves the same document, for every id pre-pass
  that changes nothing when it is run a second time (it writes in place, so it does not
  make a document null): the walk of the first rendering has left the identified
  document as it was.
\<close>

theorem render_twice:
  assumes "setIds (setIds d) = setIds d" and "setIds d = JNull \<longrightarrow> d = JNull"
  shows "fst (Schedule setIds (snd (Schedule setIds d history)) history) =
           fst (Schedule setIds d history) \<and>
         snd (Schedule setIds (snd (Schedule setIds d history)) history) =
           snd (Schedule setIds d history)"
  using assms by (auto simp: Schedule_eq)

theorem render_twice_witness:
  "fst (Schedule assignIds (snd (Schedule assignIds nested_document ())) ()) =
     Inr nested_rendering \<and>
   snd (Schedule assignIds (snd (Schedule assignIds nested_document ())) ()) =
     snd (Schedule assignIds nested_document ())"
proof -
  have i: "assignIds (assignIds nested_document) = assignIds nested_document"
    by (rule assignIds_idem)
  have n: "assignIds nested_document = JNull \<longrightarrow> nested_document = JNull"
    by (simp add: assignIds_JNull)
  show ?thesis
    using render_twice [of assignIds nested_document "()", OF i n]
    by (simp add: nested_document_renders)
qed

subsection \<open>The loading placeholder\<close>

text \<open>
  C10. The rendering is the loading placeholder exactly when the document is \<open>null\<close>.
  Any other input, \<open>undefined\<close> included, is processed as a loaded document: the id
  pre-pass is run on it and is the only write; what is not an array after it throws; and
  an array renders to \<open>out\<close> exactly when \<open>out\<close> is the column list of one card for
  each element after element 0, in order, the card of a row being what
  \<open>TopLevelPaper\<close> renders for it, under the row's key.
\<close>

theorem Schedule_Loading_iff:
  "(fst (Schedule setIds json history) = Inr Loading) = (json = JNull) \<and>
   snd (Schedule setIds json history) = (if json = JNull then json else setIds json) \<and>
   (json \<noteq> JNull \<and> \<not> Array_isArray (setIds json) \<longrightarrow>
      fst (Schedule setIds json history) = Inl TypeError) \<and>
   (json \<noteq> JNull \<longrightarrow>
      (fst (Schedule setIds json history) = Inr out) =
        (\<exists>i xs papers. setIds json = JArr i xs \<and> out = ColumnList papers \<and>
           length papers = length xs - 1 \<and>
           (\<forall>n<length xs - 1. \<exists>k paper.
              getprop (xs ! Suc n) ''id'' = Inr k \<and>
              TopLevelPaper (xs ! Suc n) history = Inr paper \<and>
              papers ! n = Keyed k paper)))"
proof (intro conjI impI)
  show "(fst (Schedule setIds json history) = Inr Loading) = (json = JNull)"
    by (auto simp: Schedule_eq split: jsval.splits sum.splits)
  show "snd (Schedule setIds json history) = (if json = JNull then json else setIds json)"
    by (simp add: Schedule_eq)
next
  assume "json \<noteq> JNull \<and> \<not> Array_isArray (setIds json)"
  then show "fst (Schedule setIds json history) = Inl TypeError"
    by (cases "setIds json") (simp_all add: Schedule_eq)
next
  assume n: "json \<noteq> JNull"
  show "(fst (Schedule setIds json history) = Inr out) =
        (\<exists>i xs papers. setIds json = JArr i xs \<and> out = ColumnList papers \<and>
           length papers = length xs - 1 \<and>
           (\<forall>n<length xs - 1. \<exists>k paper.
              getprop (xs ! Suc n) ''id'' = Inr k \<and>
              TopLevelPaper (xs ! Suc n) history = Inr paper \<and>
              papers ! n = Keyed k paper))"
  proof (cases "setIds json")
    case (JArr i xs)
    define paper where "paper = (\<lambda>row. case getprop row ''id'' of Inl e \<Rightarrow> Inl e | Inr k \<Rightarrow>
                        (case TopLevelPaper row history of Inl e \<Rightarrow> Inl e
                         | Inr paper \<Rightarrow> Inr (Keyed k paper)))"
    have row: "(paper r = Inr p) =
        (\<exists>k q. getprop r ''id'' = Inr k \<and> TopLevelPaper r history = Inr q \<and> p = Keyed k q)"
      for r p
      by (auto simp: paper_def split: sum.splits)
    have nth: "drop 1 xs ! m = xs ! Suc m" if "m < length xs - 1" for m
      using that by simp
    have step: "(Array_map paper (drop 1 xs) = Inr papers) =
        (length papers = length xs - 1 \<and>
           (\<forall>n<length xs - 1. \<exists>k q.
              getprop (xs ! Suc n) ''id'' = Inr k \<and>
              TopLevelPaper (xs ! Suc n) history = Inr q \<and>
              papers ! n = Keyed k q))" for papers
      by (simp add: Array_map_iff nth row cong: conj_cong)
    have "(fst (Schedule setIds json history) = Inr out) =
        (\<exists>papers. out = ColumnList papers \<and> Array_map paper (drop 1 xs) = Inr papers)"
      using n JArr by (auto simp: Schedule_eq paper_def split: sum.splits)
    also have "\<dots> =
        (\<exists>papers. out = ColumnList papers \<and> length papers = length xs - 1 \<and>
           (\<forall>n<length xs - 1. \<exists>k q.
              getprop (xs ! Suc n) ''id'' = Inr k \<and>
              TopLevelPaper (xs ! Suc n) history = Inr q \<and>
              papers ! n = Keyed k q))"
      unfolding step ..
    finally show ?thesis using JArr by simp
  qed (use n in \<open>simp_all add: Schedule_eq\<close>)
qed

theorem Schedule_Loading_iff_witness:
  "Schedule assignIds JNull () = (Inr Loading, JNull) \<and>
   Schedule assignIds JUndefined () = (Inl TypeError, JUndefined) \<and>
   Schedule assignIds abc_document () =
     (Inr (ColumnList
             [Keyed (JArr JUndefined [JNum 1]) (ColumnCard (JStr ''B'') []),
              Keyed (JArr JUndefined [JNum 2]) (ColumnCard (JStr ''C'') [])]),
      assignIds abc_document)"
  using Schedule_Loading_iff [of assignIds JNull "()"]
    Schedule_Loading_iff [of assignIds JUndefined "()"]
    Schedule_Loading_iff [of assignIds abc_document "()"
      "ColumnList
         [Keyed (JArr JUndefined [JNum 1]) (ColumnCard (JStr ''B'') []),
          Keyed (JArr JUndefined [JNum 2]) (ColumnCard (JStr ''C'') [])]"]
  by (simp add: Schedule_eq abc_document_def head_node_def TopLevelPaper.simps)

end
